theory Spec2Isabelle
  imports Main "HOL-Library.Char_ord" "HOL-Library.List_Lexorder" "HOL-Library.Product_Lexorder"
    "HOL-Library.AList"
begin

section \<open>Python strings\<close>

text \<open>
  A Python \<open>str\<close> is modelled as a \<open>string\<close>, one \<open>char\<close> per code point, for text
  whose code points are below 256 (the accented letters of the report's messages are written
  \<open>CHR 0xE9\<close>). The order on \<open>char\<close> and the lexicographic orders on lists and pairs are
  Python's orders on \<open>str\<close> and on tuples.
\<close>

datatype py_error =
    FileNotFoundError string
  | IsADirectoryError
  | IndexError
  | KeyError
  | TypeError

definition is_space :: "char \<Rightarrow> bool" where
  \<comment> \<open>\<open>str.isspace\<close>, and \<open>\s\<close> of a \<open>str\<close> pattern, below code point 256\<close>
  "is_space c = (c \<in> set [CHR 0x09, CHR 0x0A, CHR 0x0B, CHR 0x0C, CHR 0x0D,
                           CHR 0x1C, CHR 0x1D, CHR 0x1E, CHR 0x1F, CHR 0x20, CHR 0x85, CHR 0xA0])"

definition is_word :: "char \<Rightarrow> bool" where
  \<comment> \<open>\<open>\w\<close> of a \<open>str\<close> pattern below code point 256: alphanumeric or underscore\<close>
  "is_word c = (let n = (of_char c :: nat) in
     (48 \<le> n \<and> n \<le> 57) \<or> (65 \<le> n \<and> n \<le> 90) \<or> n = 95 \<or> (97 \<le> n \<and> n \<le> 122) \<or>
     n = 170 \<or> n = 178 \<or> n = 179 \<or> n = 181 \<or> n = 185 \<or> n = 186 \<or>
     (188 \<le> n \<and> n \<le> 190) \<or> (192 \<le> n \<and> n \<le> 214) \<or> (216 \<le> n \<and> n \<le> 246) \<or>
     248 \<le> n)"

definition lower_char :: "char \<Rightarrow> char" where
  \<comment> \<open>\<open>str.lower\<close> on one code point below 256\<close>
  "lower_char c = (let n = (of_char c :: nat) in
     if (65 \<le> n \<and> n \<le> 90) \<or> (192 \<le> n \<and> n \<le> 214) \<or> (216 \<le> n \<and> n \<le> 222)
     then char_of (n + 32) else c)"

definition lower :: "string \<Rightarrow> string" where
  "lower s = map lower_char s"

definition startswith :: "string \<Rightarrow> string \<Rightarrow> bool" where
  "startswith s p = (take (length p) s = p)"

definition startswith_any :: "string \<Rightarrow> string list \<Rightarrow> bool" where
  \<comment> \<open>\<open>s.startswith((p1, p2, ...))\<close>\<close>
  "startswith_any s ps = list_ex (startswith s) ps"

definition endswith_char :: "string \<Rightarrow> char \<Rightarrow> bool" where
  "endswith_char s c = (case rev s of [] \<Rightarrow> False | x # _ \<Rightarrow> x = c)"

fun is_substr :: "string \<Rightarrow> string \<Rightarrow> bool" where
  \<comment> \<open>\<open>sub in s\<close>\<close>
  "is_substr sub [] = (sub = [])"
| "is_substr sub (x # xs) = (startswith (x # xs) sub \<or> is_substr sub xs)"

definition strip :: "string \<Rightarrow> string" where
  \<comment> \<open>\<open>s.strip()\<close>\<close>
  "strip s = rev (dropWhile is_space (rev (dropWhile is_space s)))"

definition strip_chars :: "string \<Rightarrow> string \<Rightarrow> string" where
  \<comment> \<open>\<open>s.strip(chars)\<close>\<close>
  "strip_chars cs s = rev (dropWhile (\<lambda>c. c \<in> set cs) (rev (dropWhile (\<lambda>c. c \<in> set cs) s)))"

function split_on :: "string \<Rightarrow> string \<Rightarrow> string \<Rightarrow> string list" where
  \<comment> \<open>\<open>s.split(sep)\<close> for a non-empty \<open>sep\<close>, with the piece read so far in \<open>acc\<close>\<close>
  "split_on sep acc [] = [acc]"
| "split_on sep acc (x # xs) =
     (if sep \<noteq> [] \<and> startswith (x # xs) sep
      then acc # split_on sep [] (drop (length sep) (x # xs))
      else split_on sep (acc @ [x]) xs)"
  by pat_completeness auto
termination
  by (relation "measure (\<lambda>(sep, acc, s). length s)") auto

definition split :: "string \<Rightarrow> string \<Rightarrow> string list" where
  "split s sep = split_on sep [] s"

definition split_ws1 :: "string \<Rightarrow> string list" where
  \<comment> \<open>\<open>s.split(None, 1)\<close>: the first token, then the rest without its leading whitespace\<close>
  "split_ws1 s =
     (let s1 = dropWhile is_space s in
      if s1 = [] then []
      else
        let tok = takeWhile (\<lambda>c. \<not> is_space c) s1;
            rest = dropWhile is_space (dropWhile (\<lambda>c. \<not> is_space c) s1)
        in if rest = [] then [tok] else [tok, rest])"

fun join :: "string \<Rightarrow> string list \<Rightarrow> string" where
  \<comment> \<open>\<open>sep.join(xs)\<close>\<close>
  "join sep [] = []"
| "join sep [x] = x"
| "join sep (x # y # ys) = x @ sep @ join sep (y # ys)"

section \<open>The regular expressions of the parser\<close>

text \<open>
  The patterns of the source use literals, character classes under \<open>+\<close>, \<open>*\<close> and \<open>+?\<close>,
  groups that are not nested, one alternation of literals and one lookahead. A pattern is a
  list of items; \<open>rx_match\<close> is Python's backtracking matcher at a fixed start: the first
  match in priority order (greedy: longest first, lazy: shortest first).
\<close>

datatype atom = Ch char | Sp | NSp | Wd

datatype cls = OneOf "atom list" | NoneOf "atom list"

datatype item =
    Lit string
  | Alt "string list"
  | Plus cls
  | Star cls
  | LazyPlus cls
  | GOpen
  | GClose
  | AheadNlEnd

fun in_atom :: "bool \<Rightarrow> char \<Rightarrow> atom \<Rightarrow> bool" where
  "in_atom ic c (Ch d) = (if ic then lower_char c = lower_char d else c = d)"
| "in_atom ic c Sp = is_space c"
| "in_atom ic c NSp = (\<not> is_space c)"
| "in_atom ic c Wd = is_word c"

fun in_cls :: "bool \<Rightarrow> cls \<Rightarrow> char \<Rightarrow> bool" where
  "in_cls ic (OneOf as) c = list_ex (in_atom ic c) as"
| "in_cls ic (NoneOf as) c = (\<not> list_ex (in_atom ic c) as)"

definition lit_at :: "bool \<Rightarrow> string \<Rightarrow> string \<Rightarrow> bool" where
  \<comment> \<open>the literal \<open>l\<close> stands at the start of \<open>s\<close> (\<open>ic\<close>: re.IGNORECASE)\<close>
  "lit_at ic l s = (if ic then lower (take (length l) s) = lower l else take (length l) s = l)"

fun greedy :: "(char \<Rightarrow> bool) \<Rightarrow> (string \<Rightarrow> 'a option) \<Rightarrow> string \<Rightarrow> 'a option" where
  "greedy p k [] = k []"
| "greedy p k (x # xs) =
     (if p x then (case greedy p k xs of Some r \<Rightarrow> Some r | None \<Rightarrow> k (x # xs))
      else k (x # xs))"

fun lazy :: "(char \<Rightarrow> bool) \<Rightarrow> (string \<Rightarrow> 'a option) \<Rightarrow> string \<Rightarrow> 'a option" where
  "lazy p k [] = k []"
| "lazy p k (x # xs) =
     (case k (x # xs) of Some r \<Rightarrow> Some r | None \<Rightarrow> if p x then lazy p k xs else None)"

fun first_some :: "('b \<Rightarrow> 'a option) \<Rightarrow> 'b list \<Rightarrow> 'a option" where
  "first_some f [] = None"
| "first_some f (x # xs) = (case f x of Some r \<Rightarrow> Some r | None \<Rightarrow> first_some f xs)"

text \<open>
  \<open>rx_match ic pat s caps opn\<close>: \<open>caps\<close> are the groups closed so far, \<open>opn\<close> the input as it
  was where the open group began. The result is the input left after the match and the
  groups.
\<close>

fun rx_match :: "bool \<Rightarrow> item list \<Rightarrow> string \<Rightarrow> string list \<Rightarrow> string option
                  \<Rightarrow> (string \<times> string list) option" where
  "rx_match ic [] s caps opn = Some (s, caps)"
| "rx_match ic (Lit l # r) s caps opn =
     (if lit_at ic l s then rx_match ic r (drop (length l) s) caps opn else None)"
| "rx_match ic (Alt ls # r) s caps opn =
     first_some (\<lambda>l. if lit_at ic l s then rx_match ic r (drop (length l) s) caps opn else None) ls"
| "rx_match ic (Plus c # r) s caps opn =
     (case s of [] \<Rightarrow> None
      | x # xs \<Rightarrow> if in_cls ic c x
                  then greedy (in_cls ic c) (\<lambda>s'. rx_match ic r s' caps opn) xs else None)"
| "rx_match ic (Star c # r) s caps opn =
     greedy (in_cls ic c) (\<lambda>s'. rx_match ic r s' caps opn) s"
| "rx_match ic (LazyPlus c # r) s caps opn =
     (case s of [] \<Rightarrow> None
      | x # xs \<Rightarrow> if in_cls ic c x
                  then lazy (in_cls ic c) (\<lambda>s'. rx_match ic r s' caps opn) xs else None)"
| "rx_match ic (GOpen # r) s caps opn = rx_match ic r s caps (Some s)"
| "rx_match ic (GClose # r) s caps opn =
     (case opn of
        None \<Rightarrow> rx_match ic r s caps None
      | Some s0 \<Rightarrow> rx_match ic r s (caps @ [take (length s0 - length s) s0]) None)"
| "rx_match ic (AheadNlEnd # r) s caps opn =
     (if s = [] \<or> take 1 s = [CHR 0x0A] then rx_match ic r s caps opn else None)"

fun ngroups :: "item list \<Rightarrow> bool \<Rightarrow> nat" where
  \<comment> \<open>the number of groups a pattern closes (\<open>b\<close>: a group is open)\<close>
  "ngroups [] b = 0"
| "ngroups (GOpen # r) b = ngroups r True"
| "ngroups (GClose # r) b = (if b then 1 else 0) + ngroups r False"
| "ngroups (_ # r) b = ngroups r b"

definition re_match :: "bool \<Rightarrow> item list \<Rightarrow> string \<Rightarrow> (string \<times> string list) option" where
  \<comment> \<open>\<open>re.match(pat, s)\<close>: the text after the match (\<open>s[m.end():]\<close>) and the groups\<close>
  "re_match ic pat s = rx_match ic pat s [] None"

fun re_search :: "bool \<Rightarrow> item list \<Rightarrow> string \<Rightarrow> (string \<times> string list) option" where
  \<comment> \<open>\<open>re.search(pat, s)\<close>: the leftmost start at which the pattern matches\<close>
  "re_search ic pat [] = re_match ic pat []"
| "re_search ic pat (x # xs) =
     (case re_match ic pat (x # xs) of Some r \<Rightarrow> Some r | None \<Rightarrow> re_search ic pat xs)"

function re_finditer :: "item list \<Rightarrow> string \<Rightarrow> string list list" where
  \<comment> \<open>\<open>re.finditer(pat, s)\<close>, the groups of each match, for a pattern that matches no
      empty string: the search resumes where the last match ended\<close>
  "re_finditer pat s =
     (case re_search False pat s of
        None \<Rightarrow> []
      | Some (rest, caps) \<Rightarrow>
          caps # (if length rest < length s then re_finditer pat rest else []))"
  by pat_completeness auto
termination
  by (relation "measure (\<lambda>(pat, s). length s)") auto

section \<open>The schema model\<close>

text \<open>
  The three dataclasses of the source. Their \<open>__eq__\<close> methods compare all fields, which
  is the equality of the records. A \<open>dict\<close> is an association list in insertion order
  with one entry per key; \<open>d[k] = v\<close> is \<open>AList.update k v d\<close>.
\<close>

record Column =
  col_name :: string
  data_type :: string
  nullable :: bool
  col_default :: "string option"
  extra :: string

record Constraint =
  con_name :: string
  constraint_type :: string
  con_columns :: "string list"
  referenced_table :: "string option"
  referenced_columns :: "string list option"

record Table =
  tab_name :: string
  columns :: "(string \<times> Column) list"
  constraints :: "Constraint list"
  charset :: "string option"
  collation :: "string option"

type_synonym schema = "(string \<times> Table) list"

definition dict_eq :: "('k \<times> 'v) list \<Rightarrow> ('k \<times> 'v) list \<Rightarrow> bool" where
  \<comment> \<open>\<open>d1 == d2\<close> on dicts: the same keys with equal values, in any order\<close>
  "dict_eq d1 d2 = (length d1 = length d2 \<and> list_all (\<lambda>(k, v). map_of d2 k = Some v) d1)"

definition Table_eq :: "Table \<Rightarrow> Table \<Rightarrow> bool" where
  \<comment> \<open>\<open>Table.__eq__\<close>; \<open>set(self.constraints)\<close> is a set of Constraints under
      \<open>Constraint.__eq__\<close>, which compares the five fields\<close>
  "Table_eq t1 t2 =
     (tab_name t1 = tab_name t2 \<and>
      dict_eq (columns t1) (columns t2) \<and>
      set (constraints t1) = set (constraints t2) \<and>
      charset t1 = charset t2 \<and>
      collation t1 = collation t2)"

section \<open>The dump parser\<close>

definition ws :: cls where "ws = OneOf [Sp]"
definition any_char :: cls where "any_char = OneOf [Sp, NSp]"
definition not_backtick :: cls where "not_backtick = NoneOf [Ch (CHR 0x60)]"
definition not_rparen :: cls where "not_rparen = NoneOf [Ch (CHR '')'')]"

definition create_table_pattern :: "item list" where
  \<comment> \<open>\<open>CREATE TABLE\s+`([^`]+)`\s+\(([\s\S]+?)\)\s*(ENGINE[\s\S]+?);(?=\n|$)\<close>\<close>
  "create_table_pattern =
     [Lit ''CREATE TABLE'', Plus ws, Lit [CHR 0x60], GOpen, Plus not_backtick, GClose,
      Lit [CHR 0x60], Plus ws, Lit ''('', GOpen, LazyPlus any_char, GClose, Lit '')'', Star ws,
      GOpen, Lit ''ENGINE'', LazyPlus any_char, GClose, Lit '';'', AheadNlEnd]"

definition charset_pattern :: "item list" where
  \<comment> \<open>\<open>DEFAULT CHARSET=(\w+)\<close>\<close>
  "charset_pattern = [Lit ''DEFAULT CHARSET='', GOpen, Plus (OneOf [Wd]), GClose]"

definition collate_pattern :: "item list" where
  \<comment> \<open>\<open>COLLATE=(\w+)\<close>\<close>
  "collate_pattern = [Lit ''COLLATE='', GOpen, Plus (OneOf [Wd]), GClose]"

definition column_pattern :: "item list" where
  \<comment> \<open>\<open>`([^`]+)`\s+\<close>\<close>
  "column_pattern = [Lit [CHR 0x60], GOpen, Plus not_backtick, GClose, Lit [CHR 0x60], Plus ws]"

definition enum_pattern :: "item list" where
  \<comment> \<open>\<open>(enum|set)\s*\(([^)]+)\)\<close>, used with re.IGNORECASE\<close>
  "enum_pattern =
     [GOpen, Alt [''enum'', ''set''], GClose, Star ws, Lit ''('', GOpen, Plus not_rparen, GClose,
      Lit '')'']"

definition default_pattern :: "item list" where
  \<comment> \<open>\<open>DEFAULT\s+([^,\s]+)\<close>\<close>
  "default_pattern = [Lit ''DEFAULT'', Plus ws, GOpen, Plus (NoneOf [Ch (CHR '',''), Sp]), GClose]"

definition pk_pattern :: "item list" where
  \<comment> \<open>\<open>PRIMARY KEY\s+\(([^)]+)\)\<close>\<close>
  "pk_pattern = [Lit ''PRIMARY KEY'', Plus ws, Lit ''('', GOpen, Plus not_rparen, GClose, Lit '')'']"

definition unique_pattern :: "item list" where
  \<comment> \<open>\<open>UNIQUE KEY\s+`([^`]+)`\s+\(([^)]+)\)\<close>\<close>
  "unique_pattern =
     [Lit ''UNIQUE KEY'', Plus ws, Lit [CHR 0x60], GOpen, Plus not_backtick, GClose, Lit [CHR 0x60],
      Plus ws, Lit ''('', GOpen, Plus not_rparen, GClose, Lit '')'']"

definition fk_pattern :: "item list" where
  \<comment> \<open>\<open>CONSTRAINT\s+`([^`]+)`\s+FOREIGN KEY\s+\(([^)]+)\)\s+REFERENCES\s+`([^`]+)`\s+\(([^)]+)\)\<close>\<close>
  "fk_pattern =
     [Lit ''CONSTRAINT'', Plus ws, Lit [CHR 0x60], GOpen, Plus not_backtick, GClose, Lit [CHR 0x60],
      Plus ws, Lit ''FOREIGN KEY'', Plus ws, Lit ''('', GOpen, Plus not_rparen, GClose, Lit '')'',
      Plus ws, Lit ''REFERENCES'', Plus ws, Lit [CHR 0x60], GOpen, Plus not_backtick, GClose,
      Lit [CHR 0x60], Plus ws, Lit ''('', GOpen, Plus not_rparen, GClose, Lit '')'']"

definition idx_pattern :: "item list" where
  \<comment> \<open>\<open>KEY\s+`([^`]+)`\s+\(([^)]+)\)\<close>\<close>
  "idx_pattern =
     [Lit ''KEY'', Plus ws, Lit [CHR 0x60], GOpen, Plus not_backtick, GClose, Lit [CHR 0x60],
      Plus ws, Lit ''('', GOpen, Plus not_rparen, GClose, Lit '')'']"

definition clause_keywords :: "string list" where
  "clause_keywords = [''PRIMARY KEY'', ''UNIQUE KEY'', ''KEY'', ''CONSTRAINT'', ''FOREIGN KEY'']"

definition is_line_complete :: "string \<Rightarrow> py_error + bool" where
  \<comment> \<open>\<open>_is_line_complete\<close>; \<open>line.split('REFERENCES')[1]\<close> is the second piece of the split\<close>
  "is_line_complete line =
     (case (if startswith line ''CONSTRAINT'' \<and> is_substr ''REFERENCES'' line
            then (case split line ''REFERENCES'' of
                    _ # piece # _ \<Rightarrow> Inr (CHR '')'' \<in> set piece)
                  | _ \<Rightarrow> Inl IndexError)
            else Inr False) of
        Inl e \<Rightarrow> Inl e
      | Inr True \<Rightarrow> Inr True
      | Inr False \<Rightarrow>
          if startswith_any line [''PRIMARY KEY'', ''UNIQUE KEY'', ''KEY''] \<and> endswith_char line (CHR '')'')
          then Inr True
          else if CHR 0x60 \<in> set line \<and> \<not> startswith_any line clause_keywords
          then Inr True
          else Inr False)"

fun clean_lines :: "string list \<Rightarrow> string list \<Rightarrow> string \<Rightarrow> py_error + string list" where
  \<comment> \<open>the loop over \<open>lines\<close> that fills \<open>cleaned_lines\<close>, and the append after it\<close>
  "clean_lines [] cleaned_lines current_line =
     Inr (if current_line \<noteq> [] then cleaned_lines @ [current_line] else cleaned_lines)"
| "clean_lines (l # ls) cleaned_lines current_line =
     (let line = strip l in
      if line = [] then clean_lines ls cleaned_lines current_line
      else
        let current_line = (if current_line \<noteq> [] then current_line @ '', '' @ line else line) in
        case is_line_complete current_line of
          Inl e \<Rightarrow> Inl e
        | Inr True \<Rightarrow> clean_lines ls (cleaned_lines @ [current_line]) []
        | Inr False \<Rightarrow> clean_lines ls cleaned_lines current_line)"

definition segment :: "string \<Rightarrow> py_error + string list" where
  \<comment> \<open>from the body of a table to \<open>cleaned_lines\<close>\<close>
  "segment table_definition = clean_lines (map strip (split table_definition '',\<newline>'')) [] []"

definition column_list :: "string \<Rightarrow> string list" where
  \<comment> \<open>\<open>[col.strip('` ') for col in g.split(',')]\<close>\<close>
  "column_list g = map (strip_chars [CHR 0x60, CHR '' '']) (split g '','')"

definition type_and_attributes :: "string \<Rightarrow> py_error + string \<times> string" where
  \<comment> \<open>\<open>data_type\<close> and \<open>attributes\<close> of a column, from \<open>rest_of_line\<close>\<close>
  "type_and_attributes rest_of_line =
     (let fallback =
        (case split_ws1 rest_of_line of
           [] \<Rightarrow> Inl IndexError
         | [p0] \<Rightarrow> Inr (p0, [])
         | p0 # p1 # _ \<Rightarrow> Inr (p0, p1))
      in
      if startswith_any (lower rest_of_line) [''enum'', ''set'']
      then (case re_match True enum_pattern rest_of_line of
              Some (after, [g1, g2]) \<Rightarrow> Inr (g1 @ ''('' @ g2 @ '')'', strip after)
            | _ \<Rightarrow> fallback)
      else fallback)"

definition parse_column :: "string \<Rightarrow> string \<Rightarrow> py_error + Column" where
  \<comment> \<open>the Column built from the name and the text after \<open>column_match\<close>\<close>
  "parse_column name rest_of_line =
     (case type_and_attributes rest_of_line of
        Inl e \<Rightarrow> Inl e
      | Inr (dt, attributes) \<Rightarrow>
          Inr \<lparr> col_name = name,
                data_type = dt,
                nullable = (\<not> is_substr ''NOT NULL'' attributes),
                col_default = (case re_search False default_pattern attributes of
                                 Some (_, [g1]) \<Rightarrow> Some g1
                               | _ \<Rightarrow> None),
                extra = (if is_substr ''AUTO_INCREMENT'' attributes then ''AUTO_INCREMENT'' else []) \<rparr>)"

definition parse_key :: "string \<Rightarrow> Constraint option" where
  \<comment> \<open>the four key patterns in the order of the source; the first that matches wins\<close>
  "parse_key line =
     (case re_match False pk_pattern line of
        Some (_, [g1]) \<Rightarrow>
          Some \<lparr> con_name = ''PRIMARY'', constraint_type = ''PRIMARY KEY'',
                 con_columns = column_list g1,
                 referenced_table = None, referenced_columns = None \<rparr>
      | _ \<Rightarrow>
     (case re_match False unique_pattern line of
        Some (_, [g1, g2]) \<Rightarrow>
          Some \<lparr> con_name = g1, constraint_type = ''UNIQUE'',
                 con_columns = column_list g2,
                 referenced_table = None, referenced_columns = None \<rparr>
      | _ \<Rightarrow>
     (case re_match False fk_pattern line of
        Some (_, [g1, g2, g3, g4]) \<Rightarrow>
          Some \<lparr> con_name = g1, constraint_type = ''FOREIGN KEY'',
                 con_columns = column_list g2,
                 referenced_table = Some g3, referenced_columns = Some (column_list g4) \<rparr>
      | _ \<Rightarrow>
     (case re_match False idx_pattern line of
        Some (_, [g1, g2]) \<Rightarrow>
          Some \<lparr> con_name = g1, constraint_type = ''INDEX'',
                 con_columns = column_list g2,
                 referenced_table = None, referenced_columns = None \<rparr>
      | _ \<Rightarrow> None))))"

definition add_key :: "string \<Rightarrow> (string \<times> Column) list \<times> Constraint list
                        \<Rightarrow> (string \<times> Column) list \<times> Constraint list" where
  \<comment> \<open>the key patterns of the loop body: a key that is read is appended to \<open>constraints\<close>\<close>
  "add_key line st = (case parse_key line of Some c \<Rightarrow> (fst st, snd st @ [c]) | None \<Rightarrow> st)"

definition parse_line :: "string \<Rightarrow> (string \<times> Column) list \<times> Constraint list
                          \<Rightarrow> py_error + (string \<times> Column) list \<times> Constraint list" where
  \<comment> \<open>one turn of the loop over \<open>cleaned_lines\<close>, on \<open>columns\<close> and \<open>constraints\<close>\<close>
  "parse_line l st =
     (let line = strip l in
      if \<not> startswith_any line clause_keywords
      then (case re_match False column_pattern line of
              Some (rest_of_line, [c_name]) \<Rightarrow>
                (case parse_column c_name rest_of_line of
                   Inl e \<Rightarrow> Inl e
                 | Inr col \<Rightarrow> Inr (AList.update c_name col (fst st), snd st))
            | _ \<Rightarrow> Inr (add_key line st))
      else Inr (add_key line st))"

fun parse_lines :: "string list \<Rightarrow> (string \<times> Column) list \<times> Constraint list
                     \<Rightarrow> py_error + (string \<times> Column) list \<times> Constraint list" where
  "parse_lines [] st = Inr st"
| "parse_lines (l # ls) st =
     (case parse_line l st of Inl e \<Rightarrow> Inl e | Inr st' \<Rightarrow> parse_lines ls st')"

definition search_group :: "item list \<Rightarrow> string \<Rightarrow> string option" where
  \<comment> \<open>\<open>m.group(1)\<close> of \<open>re.search\<close> when it matches, else None\<close>
  "search_group pat s = (case re_search False pat s of Some (_, g1 # _) \<Rightarrow> Some g1 | _ \<Rightarrow> None)"

definition parse_table :: "string \<Rightarrow> string \<Rightarrow> string \<Rightarrow> py_error + Table" where
  \<comment> \<open>the body of the loop over \<open>table_matches\<close>, from the three groups of a match\<close>
  "parse_table table_name table_definition table_options =
     (case segment table_definition of
        Inl e \<Rightarrow> Inl e
      | Inr cleaned_lines \<Rightarrow>
          (case parse_lines cleaned_lines ([], []) of
             Inl e \<Rightarrow> Inl e
           | Inr (cols, cons) \<Rightarrow>
               Inr \<lparr> tab_name = table_name, columns = cols, constraints = cons,
                      charset = search_group charset_pattern table_options,
                      collation = search_group collate_pattern table_options \<rparr>))"

fun parse_matches :: "string list list \<Rightarrow> schema \<Rightarrow> py_error + schema" where
  \<comment> \<open>the loop over \<open>table_matches\<close>, on \<open>self.tables\<close>\<close>
  "parse_matches [] tables = Inr tables"
| "parse_matches (m # ms) tables =
     (case m of
        [g1, g2, g3] \<Rightarrow>
          (case parse_table g1 g2 g3 of
             Inl e \<Rightarrow> Inl e
           | Inr t \<Rightarrow> parse_matches ms (AList.update g1 t tables))
      | _ \<Rightarrow> parse_matches ms tables)"

definition parse_content :: "string \<Rightarrow> py_error + schema" where
  \<comment> \<open>\<open>parse\<close> after the file is read\<close>
  "parse_content content = parse_matches (re_finditer create_table_pattern content) []"

datatype fs_entry = File string | Directory

definition MySQLDumpParser :: "(string \<rightharpoonup> fs_entry) \<Rightarrow> string \<Rightarrow> py_error + schema" where
  \<comment> \<open>\<open>MySQLDumpParser(file_path)\<close> on a file system; the result is \<open>self.tables\<close>.
      \<open>os.path.exists\<close> holds for a directory too, which \<open>open\<close> then refuses.\<close>
  "MySQLDumpParser fs file_path =
     (case fs file_path of
        None \<Rightarrow> Inl (FileNotFoundError file_path)
      | Some Directory \<Rightarrow> Inl IsADirectoryError
      | Some (File content) \<Rightarrow> parse_content content)"

section \<open>The structural differ\<close>

definition keys :: "('k \<times> 'v) list \<Rightarrow> 'k list" where
  "keys d = map fst d"

definition getitem :: "('k \<times> 'v) list \<Rightarrow> 'k \<Rightarrow> py_error + 'v" where
  \<comment> \<open>\<open>d[k]\<close>\<close>
  "getitem d k = (case map_of d k of None \<Rightarrow> Inl KeyError | Some v \<Rightarrow> Inr v)"

definition sorted_diff :: "'a::linorder list \<Rightarrow> 'a list \<Rightarrow> 'a list" where
  \<comment> \<open>\<open>sorted(set(xs) - set(ys))\<close>\<close>
  "sorted_diff xs ys = sort (remdups (filter (\<lambda>x. x \<notin> set ys) xs))"

definition sorted_inter :: "'a::linorder list \<Rightarrow> 'a list \<Rightarrow> 'a list" where
  \<comment> \<open>\<open>sorted(set(xs).intersection(set(ys)))\<close>\<close>
  "sorted_inter xs ys = sort (remdups (filter (\<lambda>x. x \<in> set ys) xs))"

fun map_err :: "('a \<Rightarrow> py_error + 'b) \<Rightarrow> 'a list \<Rightarrow> py_error + 'b list" where
  \<comment> \<open>a loop that appends one result per element and stops at the first exception\<close>
  "map_err f [] = Inr []"
| "map_err f (x # xs) =
     (case f x of
        Inl e \<Rightarrow> Inl e
      | Inr y \<Rightarrow> (case map_err f xs of Inl e \<Rightarrow> Inl e | Inr ys \<Rightarrow> Inr (y # ys)))"

definition str_opt :: "string option \<Rightarrow> string" where
  \<comment> \<open>an \<open>Optional[str]\<close> inside an f-string\<close>
  "str_opt x = (case x of None \<Rightarrow> ''None'' | Some s \<Rightarrow> s)"

definition msg_missing_tables :: string where
  "msg_missing_tables =
     ''Tables pr'' @ [CHR 0xE9] @ ''sentes dans le premier fichier mais absentes dans le second:''"

definition msg_extra_tables :: string where
  "msg_extra_tables =
     ''Tables pr'' @ [CHR 0xE9] @ ''sentes dans le second fichier mais absentes dans le premier:''"

definition msg_no_difference :: string where
  "msg_no_difference =
     ''Aucune diff'' @ [CHR 0xE9] @ ''rence de structure trouv'' @ [CHR 0xE9] @ ''e.''"

definition missing_tables :: "schema \<Rightarrow> schema \<Rightarrow> string list" where
  \<comment> \<open>\<open>sorted(missing_tables)\<close>, with \<open>missing_tables = tables1 - tables2\<close>\<close>
  "missing_tables A B = sorted_diff (keys A) (keys B)"

definition extra_tables :: "schema \<Rightarrow> schema \<Rightarrow> string list" where
  \<comment> \<open>\<open>sorted(extra_tables)\<close>, with \<open>extra_tables = tables2 - tables1\<close>\<close>
  "extra_tables A B = sorted_diff (keys B) (keys A)"

definition missing_tables_lines :: "schema \<Rightarrow> schema \<Rightarrow> string list" where
  "missing_tables_lines A B =
     (if missing_tables A B \<noteq> []
      then [msg_missing_tables] @ map (\<lambda>t. ''  - '' @ t) (missing_tables A B) @ [[]]
      else [])"

definition extra_tables_lines :: "schema \<Rightarrow> schema \<Rightarrow> string list" where
  "extra_tables_lines A B =
     (if extra_tables A B \<noteq> []
      then [msg_extra_tables] @ map (\<lambda>t. ''  - '' @ t) (extra_tables A B) @ [[]]
      else [])"

definition charset_lines :: "Table \<Rightarrow> Table \<Rightarrow> string list" where
  "charset_lines table1 table2 =
     (if charset table1 \<noteq> charset table2
      then [''  Diff'' @ [CHR 0xE9] @ ''rence de jeu de caract'' @ [CHR 0xE8] @ ''res: '' @
            str_opt (charset table1) @ '' -> '' @ str_opt (charset table2)]
      else []) @
     (if collation table1 \<noteq> collation table2
      then [''  Diff'' @ [CHR 0xE9] @ ''rence de collation: '' @
            str_opt (collation table1) @ '' -> '' @ str_opt (collation table2)]
      else [])"

definition str_nullable :: "bool \<Rightarrow> string" where
  "str_nullable b = (if b then ''NULL'' else ''NOT NULL'')"

definition common_column_lines :: "Table \<Rightarrow> Table \<Rightarrow> string \<Rightarrow> py_error + string list" where
  \<comment> \<open>the body of the loop over \<open>sorted(common_cols)\<close>\<close>
  "common_column_lines table1 table2 c =
     (case getitem (columns table1) c of
        Inl e \<Rightarrow> Inl e
      | Inr col1 \<Rightarrow>
     (case getitem (columns table2) c of
        Inl e \<Rightarrow> Inl e
      | Inr col2 \<Rightarrow>
          Inr (if col1 \<noteq> col2
               then [''  Colonne modifi'' @ [CHR 0xE9] @ ''e: '' @ c] @
                    (if data_type col1 \<noteq> data_type col2
                     then [''    Type: '' @ data_type col1 @ '' -> '' @ data_type col2] else []) @
                    (if nullable col1 \<noteq> nullable col2
                     then [''    Nullable: '' @ str_nullable (nullable col1) @ '' -> '' @
                           str_nullable (nullable col2)] else []) @
                    (if col_default col1 \<noteq> col_default col2
                     then [''    Default: '' @ str_opt (col_default col1) @ '' -> '' @
                           str_opt (col_default col2)] else []) @
                    (if extra col1 \<noteq> extra col2
                     then [''    Extra: '' @ extra col1 @ '' -> '' @ extra col2] else [])
               else [])))"

definition column_lines :: "Table \<Rightarrow> Table \<Rightarrow> py_error + string list" where
  "column_lines table1 table2 =
     (let cols1 = keys (columns table1);
          cols2 = keys (columns table2);
          missing_cols = sorted_diff cols1 cols2;
          extra_cols = sorted_diff cols2 cols1;
          common_cols = sorted_inter cols1 cols2
      in
      case map_err (\<lambda>c. case getitem (columns table2) c of
                           Inl e \<Rightarrow> Inl e
                         | Inr col \<Rightarrow> Inr (''    + '' @ c @ '' '' @ data_type col)) extra_cols of
        Inl e \<Rightarrow> Inl e
      | Inr added \<Rightarrow>
     (case map_err (common_column_lines table1 table2) common_cols of
        Inl e \<Rightarrow> Inl e
      | Inr changed \<Rightarrow>
          Inr ((if missing_cols \<noteq> []
                then [''  Colonnes supprim'' @ [CHR 0xE9] @ ''es:''] @
                     map (\<lambda>c. ''    - '' @ c) missing_cols
                else []) @
               (if extra_cols \<noteq> []
                then [''  Colonnes ajout'' @ [CHR 0xE9] @ ''es:''] @ added
                else []) @
               concat changed)))"

type_synonym ident_key = "string \<times> string list"

definition ident :: "Constraint \<Rightarrow> ident_key" where
  \<comment> \<open>\<open>(c.constraint_type, tuple(c.columns))\<close>\<close>
  "ident c = (constraint_type c, con_columns c)"

definition constraint_dict :: "Constraint list \<Rightarrow> (ident_key \<times> Constraint) list" where
  \<comment> \<open>\<open>{(c.constraint_type, tuple(c.columns)): c for c in cs}\<close>\<close>
  "constraint_dict cs = foldl (\<lambda>d c. AList.update (ident c) c d) [] cs"

definition constraint_line :: "string \<Rightarrow> Constraint \<Rightarrow> py_error + string" where
  \<comment> \<open>the line of one removed (\<open>-\<close>) or added (\<open>+\<close>) constraint; \<open>', '.join(None)\<close> raises\<close>
  "constraint_line sign c =
     (if constraint_type c = ''FOREIGN KEY''
      then (case referenced_columns c of
              None \<Rightarrow> Inl TypeError
            | Some rcs \<Rightarrow>
                Inr (''    '' @ sign @ '' '' @ constraint_type c @ '' '' @ con_name c @ '' ('' @
                     join '', '' (con_columns c) @ '') REFERENCES '' @
                     str_opt (referenced_table c) @ '' ('' @ join '', '' rcs @ '')''))
      else Inr (''    '' @ sign @ '' '' @ constraint_type c @ '' '' @ con_name c @ '' ('' @
                join '', '' (con_columns c) @ '')''))"

definition missing_constraints :: "Constraint list \<Rightarrow> Constraint list \<Rightarrow> ident_key list" where
  \<comment> \<open>\<open>sorted(missing_constraints)\<close>\<close>
  "missing_constraints cs1 cs2 =
     sorted_diff (keys (constraint_dict cs1)) (keys (constraint_dict cs2))"

definition extra_constraints :: "Constraint list \<Rightarrow> Constraint list \<Rightarrow> ident_key list" where
  \<comment> \<open>\<open>sorted(extra_constraints)\<close>\<close>
  "extra_constraints cs1 cs2 =
     sorted_diff (keys (constraint_dict cs2)) (keys (constraint_dict cs1))"

definition constraint_section ::
  "string \<Rightarrow> string \<Rightarrow> (ident_key \<times> Constraint) list \<Rightarrow> ident_key list \<Rightarrow> py_error + string list" where
  \<comment> \<open>a header and one line per key, when there is a key\<close>
  "constraint_section header sign d ks =
     (if ks \<noteq> []
      then (case map_err (\<lambda>k. case getitem d k of
                                 Inl e \<Rightarrow> Inl e
                               | Inr c \<Rightarrow> constraint_line sign c) ks of
              Inl e \<Rightarrow> Inl e
            | Inr ls \<Rightarrow> Inr (header # ls))
      else Inr [])"

definition constraint_lines :: "Constraint list \<Rightarrow> Constraint list \<Rightarrow> py_error + string list" where
  "constraint_lines cs1 cs2 =
     (case constraint_section (''  Contraintes supprim'' @ [CHR 0xE9] @ ''es:'') ''-''
             (constraint_dict cs1) (missing_constraints cs1 cs2) of
        Inl e \<Rightarrow> Inl e
      | Inr removed \<Rightarrow>
     (case constraint_section (''  Contraintes ajout'' @ [CHR 0xE9] @ ''es:'') ''+''
             (constraint_dict cs2) (extra_constraints cs1 cs2) of
        Inl e \<Rightarrow> Inl e
      | Inr added \<Rightarrow> Inr (removed @ added)))"

definition table_diff :: "Table \<Rightarrow> Table \<Rightarrow> py_error + string list" where
  "table_diff table1 table2 =
     (case column_lines table1 table2 of
        Inl e \<Rightarrow> Inl e
      | Inr cl \<Rightarrow>
     (case constraint_lines (constraints table1) (constraints table2) of
        Inl e \<Rightarrow> Inl e
      | Inr kl \<Rightarrow> Inr (charset_lines table1 table2 @ cl @ kl)))"

definition table_block :: "schema \<Rightarrow> schema \<Rightarrow> string \<Rightarrow> py_error + string list" where
  \<comment> \<open>the body of the loop over \<open>sorted(common_tables)\<close>: what it adds to \<open>result\<close>\<close>
  "table_block A B table_name =
     (case getitem A table_name of
        Inl e \<Rightarrow> Inl e
      | Inr table1 \<Rightarrow>
     (case getitem B table_name of
        Inl e \<Rightarrow> Inl e
      | Inr table2 \<Rightarrow>
     (case table_diff table1 table2 of
        Inl e \<Rightarrow> Inl e
      | Inr td \<Rightarrow>
          Inr (if td \<noteq> []
               then [''Diff'' @ [CHR 0xE9] @ ''rences pour la table '' @ [CHR 0x60] @ table_name @
                     [CHR 0x60] @ '':''] @ td @ [[]]
               else []))))"

definition compare :: "schema \<Rightarrow> schema \<Rightarrow> py_error + string" where
  \<comment> \<open>\<open>SQLDiff.compare\<close> on \<open>parser1.tables\<close> and \<open>parser2.tables\<close>\<close>
  "compare A B =
     (case map_err (table_block A B) (sorted_inter (keys A) (keys B)) of
        Inl e \<Rightarrow> Inl e
      | Inr blocks \<Rightarrow>
          (let result = missing_tables_lines A B @ extra_tables_lines A B @ concat blocks
           in Inr (if result \<noteq> [] then join ''\<newline>'' result else msg_no_difference)))"

definition SQLDiff :: "(string \<rightharpoonup> fs_entry) \<Rightarrow> string \<Rightarrow> string \<Rightarrow> py_error + string" where
  \<comment> \<open>\<open>SQLDiff(file1, file2).compare()\<close>\<close>
  "SQLDiff fs file1 file2 =
     (case MySQLDumpParser fs file1 of
        Inl e \<Rightarrow> Inl e
      | Inr A \<Rightarrow>
     (case MySQLDumpParser fs file2 of
        Inl e \<Rightarrow> Inl e
      | Inr B \<Rightarrow> compare A B))"

section \<open>What a report says, and the inputs of the examples\<close>



fun after_first :: "string \<Rightarrow> string \<Rightarrow> string option" where
  \<comment> \<open>the text after the first occurrence of \<open>sep\<close>, when there is one\<close>
  "after_first sep [] = (if sep = [] then Some [] else None)"
| "after_first sep (x # xs) =
     (if startswith (x # xs) sep then Some (drop (length sep) (x # xs)) else after_first sep xs)"

definition bq :: "string \<Rightarrow> string" where
  \<comment> \<open>an identifier between backticks\<close>
  "bq n = [CHR 0x60] @ n @ [CHR 0x60]"

definition sq :: "string \<Rightarrow> string" where
  \<comment> \<open>a value between single quotes\<close>
  "sq v = [CHR 0x27] @ v @ [CHR 0x27]"

definition clause_id :: string where
  "clause_id = bq ''id'' @ '' int(11) NOT NULL AUTO_INCREMENT''"

definition enum_abc :: string where
  "enum_abc = ''enum('' @ sq ''a'' @ '','' @ sq ''b'' @ '','' @ sq ''c'' @ '')''"

definition clause_status :: string where
  "clause_status = bq ''status'' @ '' '' @ enum_abc @ '' NOT NULL DEFAULT '' @ sq ''a''"

definition fk_fragment :: string where
  \<comment> \<open>a foreign key to a table whose name begins with REFERENCES\<close>
  "fk_fragment =
     ''CONSTRAINT '' @ bq ''fk'' @ '' FOREIGN KEY ('' @ bq ''a'' @ '') REFERENCES '' @
     bq ''REFERENCES_t'' @ '' ('' @ bq ''id'' @ '')''"

definition fk_1 :: Constraint where
  "fk_1 = \<lparr> con_name = ''fk_1'', constraint_type = ''FOREIGN KEY'', con_columns = [''user_id''],
            referenced_table = Some ''users'', referenced_columns = Some [''id''] \<rparr>"

definition fk_2 :: Constraint where
  "fk_2 = \<lparr> con_name = ''fk_2'', constraint_type = ''FOREIGN KEY'', con_columns = [''user_id''],
            referenced_table = Some ''users'', referenced_columns = Some [''id''] \<rparr>"

definition pk_id :: Constraint where
  "pk_id = \<lparr> con_name = ''PRIMARY'', constraint_type = ''PRIMARY KEY'', con_columns = [''id''],
             referenced_table = None, referenced_columns = None \<rparr>"

definition orders_with :: "Constraint list \<Rightarrow> Table" where
  "orders_with cs =
     \<lparr> tab_name = ''orders'',
        columns = [(''id'', \<lparr> col_name = ''id'', data_type = ''int(11)'', nullable = False,
                              col_default = None, extra = ''AUTO_INCREMENT'' \<rparr>),
                   (''user_id'', \<lparr> col_name = ''user_id'', data_type = ''int(11)'',
                                   nullable = False, col_default = None, extra = [] \<rparr>)],
        constraints = cs, charset = Some ''utf8'', collation = None \<rparr>"

definition refs_iff_fk :: "Constraint \<Rightarrow> bool" where
  \<comment> \<open>the referenced table and columns are present exactly for a foreign key\<close>
  "refs_iff_fk c =
     ((referenced_table c \<noteq> None) = (constraint_type c = ''FOREIGN KEY'') \<and>
      (referenced_columns c \<noteq> None) = (constraint_type c = ''FOREIGN KEY''))"



definition tables_ok :: "schema \<Rightarrow> bool" where
  \<comment> \<open>every constraint of every table has its references exactly when it is a foreign key\<close>
  "tables_ok S = list_all (\<lambda>(n, t). list_all refs_iff_fk (constraints t)) S"

definition dump_orders :: "string \<Rightarrow> string" where
  \<comment> \<open>a dump of one table, with the name of its foreign key\<close>
  "dump_orders fk =
     ''CREATE TABLE '' @ bq ''orders'' @ '' (\<newline>  '' @ clause_id @ '',\<newline>  '' @
     bq ''user_id'' @ '' int(11) NOT NULL,\<newline>  PRIMARY KEY ('' @ bq ''id'' @ ''),\<newline>  CONSTRAINT '' @
     bq fk @ '' FOREIGN KEY ('' @ bq ''user_id'' @ '') REFERENCES '' @ bq ''users'' @ '' ('' @
     bq ''id'' @ '')\<newline>) ENGINE=InnoDB DEFAULT CHARSET=utf8;\<newline>''"




section \<open>Properties of the column parser\<close>

text \<open>
  C2. The column clause \<open>`id` int(11) NOT NULL AUTO_INCREMENT\<close> is one complete line for
  the segmenter, and the loop body of the parser turns it into exactly the Column named
  id, of type int(11), not nullable, without default, with extra AUTO_INCREMENT.
\<close>

theorem parse_clause_id:
  "segment clause_id = Inr [clause_id] \<and>
   parse_line clause_id ([], []) =
     Inr ([(''id'', \<lparr> col_name = ''id'', data_type = ''int(11)'', nullable = False,
                       col_default = None, extra = ''AUTO_INCREMENT'' \<rparr>)], [])"
  by code_simp

text \<open>
  C3. The column clause \<open>`status` enum('a','b','c') NOT NULL DEFAULT 'a'\<close> is one complete
  line for the segmenter and parses to a Column whose type is the whole text
  \<open>enum('a','b','c')\<close>, not nullable, whose default is the token \<open>'a'\<close> with its quotes.
\<close>

theorem parse_clause_status:
  "segment clause_status = Inr [clause_status] \<and>
   parse_line clause_status ([], []) =
     Inr ([(''status'', \<lparr> col_name = ''status'', data_type = enum_abc, nullable = False,
                           col_default = Some (sq ''a''), extra = [] \<rparr>)], [])"
  by code_simp

section \<open>Properties of the segmenter\<close>

text \<open>
  C4. The fragment
  \<open>CONSTRAINT `fk` FOREIGN KEY (`a`) REFERENCES `REFERENCES_t` (`id`)\<close> begins with
  CONSTRAINT, contains REFERENCES, and the text after REFERENCES contains a closing
  parenthesis; the fragment is a foreign key for the constraint parser. The completeness
  predicate looks only at the text between the first two occurrences of REFERENCES and
  answers that the fragment is not complete.
\<close>

theorem is_line_complete_fk_fragment:
  "startswith fk_fragment ''CONSTRAINT'' \<and>
   is_substr ''REFERENCES'' fk_fragment \<and>
   (case after_first ''REFERENCES'' fk_fragment of
      Some r \<Rightarrow> CHR '')'' \<in> set r | None \<Rightarrow> False) \<and>
   parse_key fk_fragment =
     Some \<lparr> con_name = ''fk'', constraint_type = ''FOREIGN KEY'', con_columns = [''a''],
            referenced_table = Some ''REFERENCES_t'', referenced_columns = Some [''id''] \<rparr> \<and>
   is_line_complete fk_fragment = Inr False"
  by code_simp

section \<open>Properties of the differ\<close>

lemma sorted_diff_self: "sorted_diff xs xs = []"
  by (simp add: sorted_diff_def)


lemma set_sorted_inter: "set (sorted_inter xs ys) = set xs \<inter> set ys"
  by (auto simp: sorted_inter_def)


lemma getitem_in_keys:
  assumes "k \<in> set (keys d)"
  shows "\<exists>v. getitem d k = Inr v"
proof -
  from assms have "k \<in> fst ` set d" by (simp add: keys_def)
  then have "map_of d k \<noteq> None" by (simp add: map_of_eq_None_iff)
  then show ?thesis by (auto simp: getitem_def)
qed

lemma map_err_const:
  assumes "\<And>x. x \<in> set xs \<Longrightarrow> f x = Inr (g x)"
  shows "map_err f xs = Inr (map g xs)"
  using assms by (induction xs) auto


subsection \<open>A schema against itself\<close>

lemma common_column_lines_self:
  assumes "c \<in> set (keys (columns t))"
  shows "common_column_lines t t c = Inr []"
proof -
  from getitem_in_keys [OF assms] obtain v where "getitem (columns t) c = Inr v" ..
  then show ?thesis by (simp add: common_column_lines_def)
qed

lemma column_lines_self: "column_lines t t = Inr []"
proof -
  have "map_err (common_column_lines t t) (sorted_inter (keys (columns t)) (keys (columns t)))
        = Inr (map (\<lambda>_. []) (sorted_inter (keys (columns t)) (keys (columns t))))"
    by (rule map_err_const) (simp add: set_sorted_inter common_column_lines_self)
  then show ?thesis
    by (simp add: column_lines_def Let_def sorted_diff_self)
qed

lemma constraint_lines_self: "constraint_lines cs cs = Inr []"
  by (simp add: constraint_lines_def missing_constraints_def extra_constraints_def
      sorted_diff_self constraint_section_def)

lemma table_diff_self: "table_diff t t = Inr []"
  by (simp add: table_diff_def column_lines_self constraint_lines_self charset_lines_def)

lemma table_block_self:
  assumes "n \<in> set (keys S)"
  shows "table_block S S n = Inr []"
proof -
  from getitem_in_keys [OF assms] obtain t where "getitem S n = Inr t" ..
  then show ?thesis by (simp add: table_block_def table_diff_self)
qed

lemma compare_self: "compare S S = Inr msg_no_difference"
proof -
  have "map_err (table_block S S) (sorted_inter (keys S) (keys S))
        = Inr (map (\<lambda>_. []) (sorted_inter (keys S) (keys S)))"
    by (rule map_err_const) (simp add: set_sorted_inter table_block_self)
  then show ?thesis
    by (simp add: compare_def missing_tables_lines_def extra_tables_lines_def
        missing_tables_def extra_tables_def sorted_diff_self)
qed

subsection \<open>Tables of one schema only\<close>




subsection \<open>Constraints of a common table\<close>












section \<open>Equality of tables\<close>

text \<open>
  C7, as the claim states it, fails: two tables that agree on name, columns, charset and
  collation, and whose only constraint is the same foreign key under the names fk_1 and
  fk_2, cover the same identity keys and are not equal.
\<close>

theorem Table_eq_by_identity_key_counterexample:
  "tab_name (orders_with [fk_1]) = tab_name (orders_with [fk_2]) \<and>
   dict_eq (columns (orders_with [fk_1])) (columns (orders_with [fk_2])) \<and>
   charset (orders_with [fk_1]) = charset (orders_with [fk_2]) \<and>
   collation (orders_with [fk_1]) = collation (orders_with [fk_2]) \<and>
   ident ` set (constraints (orders_with [fk_1])) = ident ` set (constraints (orders_with [fk_2])) \<and>
   \<not> Table_eq (orders_with [fk_1]) (orders_with [fk_2])"
  by code_simp

text \<open>
  C7, amended. Table equality compares the constraints as a set of whole Constraints (name,
  kind, columns and references): two Tables equal on name, columns, charset and collation
  are equal exactly when their constraint sequences hold the same Constraints, in any order
  and with any repetition.
\<close>

theorem Table_eq_constraints_as_set:
  assumes "tab_name t1 = tab_name t2"
    and "dict_eq (columns t1) (columns t2)"
    and "charset t1 = charset t2"
    and "collation t1 = collation t2"
  shows "Table_eq t1 t2 \<longleftrightarrow> set (constraints t1) = set (constraints t2)"
  using assms by (simp add: Table_eq_def)

theorem Table_eq_constraints_as_set_witness:
  "Table_eq (orders_with [pk_id, fk_1]) (orders_with [fk_1, pk_id, fk_1]) \<and>
   \<not> Table_eq (orders_with [pk_id, fk_1]) (orders_with [pk_id, fk_2])"
proof -
  have n: "tab_name (orders_with a) = tab_name (orders_with b)"
    and d: "dict_eq (columns (orders_with a)) (columns (orders_with b))"
    and c: "charset (orders_with a) = charset (orders_with b)"
    and l: "collation (orders_with a) = collation (orders_with b)" for a b
    by (simp_all add: orders_with_def dict_eq_def)
  have s1: "set (constraints (orders_with [pk_id, fk_1])) = set (constraints (orders_with [fk_1, pk_id, fk_1]))"
    by (auto simp: orders_with_def)
  have s2: "set (constraints (orders_with [pk_id, fk_1])) \<noteq> set (constraints (orders_with [pk_id, fk_2]))"
    by code_simp
  show ?thesis
    using Table_eq_constraints_as_set [OF n d c l, of "[pk_id, fk_1]" "[fk_1, pk_id, fk_1]"]
      Table_eq_constraints_as_set [OF n d c l, of "[pk_id, fk_1]" "[pk_id, fk_2]"] s1 s2
    by blast
qed

section \<open>A path without a file\<close>

text \<open>
  C8. When the path names nothing in the file system, constructing the parser raises the
  missing-file error, so no schema, partial or not, comes back; the differ built on such a
  path as its first file fails in the same way.
\<close>

theorem missing_file_raises:
  assumes "fs file_path = None"
  shows "MySQLDumpParser fs file_path = Inl (FileNotFoundError file_path) \<and>
         (\<forall>S. MySQLDumpParser fs file_path \<noteq> Inr S) \<and>
         SQLDiff fs file_path other = Inl (FileNotFoundError file_path)"
  using assms by (simp add: MySQLDumpParser_def SQLDiff_def)

theorem missing_file_raises_witness:
  "MySQLDumpParser (Map.empty(''a.sql'' \<mapsto> File [])) ''b.sql'' = Inl (FileNotFoundError ''b.sql'')"
  using missing_file_raises [of "Map.empty(''a.sql'' \<mapsto> File [])" "''b.sql''"] by simp

section \<open>Properties of the matcher\<close>

lemma greedy_Some:
  assumes "greedy p k s = Some r"
  shows "\<exists>pre s'. s = pre @ s' \<and> list_all p pre \<and> k s' = Some r"
  using assms
proof (induction s)
  case Nil
  then show ?case by simp
next
  case (Cons x xs)
  show ?case
  proof (cases "p x \<and> greedy p k xs = Some r")
    case True
    with Cons.IH obtain pre s' where "xs = pre @ s'" "list_all p pre" "k s' = Some r" by blast
    with True have "x # xs = (x # pre) @ s' \<and> list_all p (x # pre) \<and> k s' = Some r" by simp
    then show ?thesis by blast
  next
    case False
    with Cons.prems have "k (x # xs) = Some r" by (auto split: if_splits option.splits)
    then have "x # xs = [] @ (x # xs) \<and> list_all p [] \<and> k (x # xs) = Some r" by simp
    then show ?thesis by blast
  qed
qed

lemma lazy_Some:
  assumes "lazy p k s = Some r"
  shows "\<exists>pre s'. s = pre @ s' \<and> list_all p pre \<and> k s' = Some r"
  using assms
proof (induction s)
  case Nil
  then show ?case by simp
next
  case (Cons x xs)
  show ?case
  proof (cases "k (x # xs) = Some r")
    case True
    then have "x # xs = [] @ (x # xs) \<and> list_all p [] \<and> k (x # xs) = Some r" by simp
    then show ?thesis by blast
  next
    case False
    with Cons.prems have px: "p x" and "lazy p k xs = Some r"
      by (auto split: if_splits option.splits)
    with Cons.IH obtain pre s' where "xs = pre @ s'" "list_all p pre" "k s' = Some r" by blast
    with px have "x # xs = (x # pre) @ s' \<and> list_all p (x # pre) \<and> k s' = Some r" by simp
    then show ?thesis by blast
  qed
qed

lemma first_some_Some:
  assumes "first_some f xs = Some r"
  shows "\<exists>x \<in> set xs. f x = Some r"
  using assms by (induction xs) (auto split: option.splits)

lemma drop_is_suffix: "\<exists>p. s = p @ drop n s"
  by (metis append_take_drop_id)

text \<open>A match of a pattern is a match of each tail of the pattern on a tail of the input.\<close>

lemma rx_match_tail:
  assumes "rx_match ic (items @ tl_items) s caps opn = Some r"
  shows "\<exists>p s' caps' opn'. s = p @ s' \<and> rx_match ic tl_items s' caps' opn' = Some r"
  using assms
proof (induction items arbitrary: s caps opn)
  case Nil
  then have "s = [] @ s \<and> rx_match ic tl_items s caps opn = Some r" by simp
  then show ?case by blast
next
  case (Cons it items)
  have step: "\<exists>p s' caps' opn'. s = p @ s' \<and> rx_match ic tl_items s' caps' opn' = Some r"
    if "s = q @ s1" and "rx_match ic (items @ tl_items) s1 caps1 opn1 = Some r"
    for q s1 caps1 opn1
  proof -
    from Cons.IH [OF that(2)] obtain p s' caps' opn'
      where "s1 = p @ s'" "rx_match ic tl_items s' caps' opn' = Some r" by blast
    with that(1) have "s = (q @ p) @ s' \<and> rx_match ic tl_items s' caps' opn' = Some r" by simp
    then show ?thesis by blast
  qed
  show ?case
  proof (cases it)
    case (Lit l)
    with Cons.prems have "rx_match ic (items @ tl_items) (drop (length l) s) caps opn = Some r"
      by (simp split: if_splits)
    moreover have "s = take (length l) s @ drop (length l) s" by simp
    ultimately show ?thesis using step by blast
  next
    case (Alt ls)
    with Cons.prems have "first_some (\<lambda>l. if lit_at ic l s
        then rx_match ic (items @ tl_items) (drop (length l) s) caps opn else None) ls = Some r"
      by simp
    from first_some_Some [OF this] obtain l where
      "(if lit_at ic l s then rx_match ic (items @ tl_items) (drop (length l) s) caps opn else None)
        = Some r" by blast
    then have "rx_match ic (items @ tl_items) (drop (length l) s) caps opn = Some r"
      by (simp split: if_splits)
    moreover have "s = take (length l) s @ drop (length l) s" by simp
    ultimately show ?thesis using step by blast
  next
    case (Plus c)
    with Cons.prems obtain x xs where s: "s = x # xs"
      and g: "greedy (in_cls ic c) (\<lambda>s'. rx_match ic (items @ tl_items) s' caps opn) xs = Some r"
      by (auto split: list.splits if_splits)
    from greedy_Some [OF g] obtain pre s1 where "xs = pre @ s1"
      "rx_match ic (items @ tl_items) s1 caps opn = Some r" by blast
    with s have "s = (x # pre) @ s1" by simp
    then show ?thesis using step \<open>rx_match ic (items @ tl_items) s1 caps opn = Some r\<close> by blast
  next
    case (Star c)
    with Cons.prems have
      g: "greedy (in_cls ic c) (\<lambda>s'. rx_match ic (items @ tl_items) s' caps opn) s = Some r"
      by simp
    from greedy_Some [OF g] obtain pre s1 where "s = pre @ s1"
      "rx_match ic (items @ tl_items) s1 caps opn = Some r" by blast
    then show ?thesis using step by blast
  next
    case (LazyPlus c)
    with Cons.prems obtain x xs where s: "s = x # xs"
      and g: "lazy (in_cls ic c) (\<lambda>s'. rx_match ic (items @ tl_items) s' caps opn) xs = Some r"
      by (auto split: list.splits if_splits)
    from lazy_Some [OF g] obtain pre s1 where "xs = pre @ s1"
      "rx_match ic (items @ tl_items) s1 caps opn = Some r" by blast
    with s have "s = (x # pre) @ s1" by simp
    then show ?thesis using step \<open>rx_match ic (items @ tl_items) s1 caps opn = Some r\<close> by blast
  next
    case GOpen
    with Cons.prems have "rx_match ic (items @ tl_items) s caps (Some s) = Some r" by simp
    moreover have "s = [] @ s" by simp
    ultimately show ?thesis using step by blast
  next
    case GClose
    with Cons.prems obtain caps1 where "rx_match ic (items @ tl_items) s caps1 None = Some r"
      by (auto split: option.splits)
    moreover have "s = [] @ s" by simp
    ultimately show ?thesis using step by blast
  next
    case AheadNlEnd
    with Cons.prems have "rx_match ic (items @ tl_items) s caps opn = Some r"
      by (simp split: if_splits)
    moreover have "s = [] @ s" by simp
    ultimately show ?thesis using step by blast
  qed
qed

text \<open>
  A match gives one text per group of the pattern, so the parser finds the groups it reads.
\<close>

lemma rx_match_groups:
  assumes "rx_match ic items s caps opn = Some (rest, gs)"
  shows "length gs = length caps + ngroups items (opn \<noteq> None)"
  using assms
proof (induction items arbitrary: s caps opn)
  case Nil
  then show ?case by simp
next
  case (Cons it items)
  show ?case
  proof (cases it)
    case (Lit l)
    with Cons.prems have "rx_match ic items (drop (length l) s) caps opn = Some (rest, gs)"
      by (simp split: if_splits)
    from Cons.IH [OF this] Lit show ?thesis by simp
  next
    case (Alt ls)
    with Cons.prems have "first_some (\<lambda>l. if lit_at ic l s
        then rx_match ic items (drop (length l) s) caps opn else None) ls = Some (rest, gs)"
      by simp
    from first_some_Some [OF this] obtain l where
      "(if lit_at ic l s then rx_match ic items (drop (length l) s) caps opn else None)
        = Some (rest, gs)" by blast
    then have "rx_match ic items (drop (length l) s) caps opn = Some (rest, gs)"
      by (simp split: if_splits)
    from Cons.IH [OF this] Alt show ?thesis by simp
  next
    case (Plus c)
    with Cons.prems obtain x xs where
      g: "greedy (in_cls ic c) (\<lambda>s'. rx_match ic items s' caps opn) xs = Some (rest, gs)"
      by (auto split: list.splits if_splits)
    from greedy_Some [OF g] obtain s1 where "rx_match ic items s1 caps opn = Some (rest, gs)"
      by blast
    from Cons.IH [OF this] Plus show ?thesis by simp
  next
    case (Star c)
    with Cons.prems have
      g: "greedy (in_cls ic c) (\<lambda>s'. rx_match ic items s' caps opn) s = Some (rest, gs)"
      by simp
    from greedy_Some [OF g] obtain s1 where "rx_match ic items s1 caps opn = Some (rest, gs)"
      by blast
    from Cons.IH [OF this] Star show ?thesis by simp
  next
    case (LazyPlus c)
    with Cons.prems obtain x xs where
      g: "lazy (in_cls ic c) (\<lambda>s'. rx_match ic items s' caps opn) xs = Some (rest, gs)"
      by (auto split: list.splits if_splits)
    from lazy_Some [OF g] obtain s1 where "rx_match ic items s1 caps opn = Some (rest, gs)"
      by blast
    from Cons.IH [OF this] LazyPlus show ?thesis by simp
  next
    case GOpen
    with Cons.prems have "rx_match ic items s caps (Some s) = Some (rest, gs)" by simp
    from Cons.IH [OF this] GOpen show ?thesis by simp
  next
    case GClose
    show ?thesis
    proof (cases opn)
      case None
      with GClose Cons.prems have "rx_match ic items s caps None = Some (rest, gs)" by simp
      from Cons.IH [OF this] GClose None show ?thesis by simp
    next
      case (Some s0)
      with GClose Cons.prems have
        "rx_match ic items s (caps @ [take (length s0 - length s) s0]) None = Some (rest, gs)"
        by simp
      from Cons.IH [OF this] GClose Some show ?thesis by simp
    qed
  next
    case AheadNlEnd
    with Cons.prems have "rx_match ic items s caps opn = Some (rest, gs)"
      by (simp split: if_splits)
    from Cons.IH [OF this] AheadNlEnd show ?thesis by simp
  qed
qed

lemma re_match_groups:
  assumes "re_match ic pat s = Some (rest, gs)"
  shows "length gs = ngroups pat False"
  using rx_match_groups [of ic pat s "[]" None rest gs] assms by (simp add: re_match_def)

lemma pattern_groups:
  "ngroups create_table_pattern False = 3"
  "ngroups column_pattern False = 1"
  "ngroups enum_pattern False = 2"
  "ngroups default_pattern False = 1"
  "ngroups charset_pattern False = 1"
  "ngroups collate_pattern False = 1"
  "ngroups pk_pattern False = 1"
  "ngroups unique_pattern False = 2"
  "ngroups fk_pattern False = 4"
  "ngroups idx_pattern False = 2"
  by (simp_all add: create_table_pattern_def column_pattern_def enum_pattern_def
      default_pattern_def charset_pattern_def collate_pattern_def pk_pattern_def
      unique_pattern_def fk_pattern_def idx_pattern_def)

lemma re_search_Some:
  assumes "re_search ic pat s = Some r"
  shows "\<exists>p s'. s = p @ s' \<and> re_match ic pat s' = Some r"
  using assms
proof (induction s)
  case Nil
  then have "re_match ic pat [] = Some r" by simp
  then show ?case by simp
next
  case (Cons x xs)
  show ?case
  proof (cases "re_match ic pat (x # xs) = Some r")
    case True
    then show ?thesis by (intro exI [of _ "[]"] exI [of _ "x # xs"]) simp
  next
    case False
    with Cons.prems have "re_search ic pat xs = Some r" by (simp split: option.splits)
    with Cons.IH obtain p s' where "xs = p @ s'" "re_match ic pat s' = Some r" by blast
    then show ?thesis by (intro exI [of _ "x # p"] exI [of _ "s'"]) simp
  qed
qed

lemma rx_match_rest:
  assumes "rx_match ic items s caps opn = Some (rest, gs)"
  shows "\<exists>p. s = p @ rest"
proof -
  from assms have "rx_match ic (items @ []) s caps opn = Some (rest, gs)" by simp
  from rx_match_tail [OF this] obtain p s' caps' opn' where "s = p @ s'"
    "rx_match ic [] s' caps' opn' = Some (rest, gs)" by blast
  then show ?thesis by simp
qed

text \<open>A match of \<open>create_table_pattern\<close> is never empty, so \<open>re_finditer\<close> always resumes.\<close>

lemma create_table_match_consumes:
  assumes "re_search False create_table_pattern s = Some (rest, gs)"
  shows "length rest < length s"
proof -
  define r where "r = tl create_table_pattern"
  have pat: "create_table_pattern = Lit ''CREATE TABLE'' # r"
    by (simp add: r_def create_table_pattern_def)
  from re_search_Some [OF assms] obtain p s' where s: "s = p @ s'"
    and m: "re_match False create_table_pattern s' = Some (rest, gs)" by blast
  from m have l: "lit_at False ''CREATE TABLE'' s'"
    and m': "rx_match False r (drop (length ''CREATE TABLE'') s') [] None = Some (rest, gs)"
    unfolding re_match_def pat by (simp_all split: if_splits)
  from l have "length s' \<ge> 12"
    by (auto simp: lit_at_def dest: arg_cong [where f = length])
  moreover from rx_match_rest [OF m'] obtain q where "drop (length ''CREATE TABLE'') s' = q @ rest" ..
  then have "length rest \<le> length s' - 12"
    by (auto dest: arg_cong [where f = length])
  ultimately show ?thesis using s by simp
qed

















section \<open>The parser raises nothing and keeps the references of foreign keys\<close>

lemma split_on_not_Nil: "split_on sep acc s \<noteq> []"
  by (induction sep acc s rule: split_on.induct) auto

lemma split_on_two:
  assumes "sep \<noteq> []" and "is_substr sep s"
  shows "\<exists>a b r. split_on sep acc s = a # b # r"
  using assms
proof (induction s arbitrary: acc)
  case Nil
  then show ?case by simp
next
  case (Cons x xs)
  show ?case
  proof (cases "startswith (x # xs) sep")
    case True
    obtain b r where "split_on sep [] (drop (length sep) (x # xs)) = b # r"
      using split_on_not_Nil [of sep "[]" "drop (length sep) (x # xs)"]
      by (cases "split_on sep [] (drop (length sep) (x # xs))") auto
    with True Cons.prems(1) show ?thesis by simp
  next
    case False
    with Cons.prems have "is_substr sep xs" by simp
    from Cons.IH [OF Cons.prems(1) this, of "acc @ [x]"] False show ?thesis by simp
  qed
qed

lemma is_line_complete_total: "\<exists>b. is_line_complete line = Inr b"
proof (cases "startswith line ''CONSTRAINT'' \<and> is_substr ''REFERENCES'' line")
  case True
  then obtain a b r where "split line ''REFERENCES'' = a # b # r"
    using split_on_two [of "''REFERENCES''" line "[]"] by (auto simp: split_def)
  with True show ?thesis
    by (cases "CHR '')'' \<in> set b") (auto simp: is_line_complete_def)
next
  case False
  then show ?thesis by (auto simp: is_line_complete_def)
qed

lemma clean_lines_total: "\<exists>r. clean_lines ls cleaned cur = Inr r"
proof (induction ls arbitrary: cleaned cur)
  case Nil
  then show ?case by simp
next
  case (Cons l ls)
  show ?case
  proof (cases "strip l = []")
    case True
    with Cons.IH [of cleaned cur] show ?thesis by simp
  next
    case False
    define cur' where "cur' = (if cur \<noteq> [] then cur @ '', '' @ strip l else strip l)"
    obtain b where b: "is_line_complete cur' = Inr b"
      using is_line_complete_total by blast
    show ?thesis
    proof (cases b)
      case True
      with b False Cons.IH [of "cleaned @ [cur']" "[]"] show ?thesis
        by (simp add: Let_def cur'_def)
    next
      case False': False
      with b False Cons.IH [of cleaned cur'] show ?thesis
        by (simp add: Let_def cur'_def)
    qed
  qed
qed

lemma segment_total: "\<exists>r. segment body = Inr r"
  by (simp add: segment_def clean_lines_total)

lemma strip_no_trailing_space:
  assumes "strip l = a @ [x] @ rest" and "is_space x"
  shows "\<exists>c \<in> set rest. \<not> is_space c"
proof (rule ccontr)
  assume "\<not> (\<exists>c \<in> set rest. \<not> is_space c)"
  then have all: "\<forall>c \<in> set rest. is_space c" by simp
  define d where "d = dropWhile is_space (rev (dropWhile is_space l))"
  have "rev d = a @ [x] @ rest"
    using assms(1) by (simp add: strip_def d_def)
  then have "d = rev (a @ [x] @ rest)" by (metis rev_rev_ident)
  then have d: "d = rev rest @ x # rev a" by simp
  then have "d \<noteq> []" by simp
  then have "\<not> is_space (hd d)" unfolding d_def by (rule hd_dropWhile)
  moreover have "is_space (hd d)"
  proof (cases rest rule: rev_cases)
    case Nil
    with d assms(2) show ?thesis by simp
  next
    case (snoc ys y)
    with d all show ?thesis by simp
  qed
  ultimately show False by simp
qed

lemma column_match_rest:
  assumes "re_match False column_pattern line = Some (rest, gs)"
  shows "\<exists>a x. line = a @ [x] @ rest \<and> is_space x"
proof -
  have pat: "column_pattern =
      [Lit [CHR 0x60], GOpen, Plus not_backtick, GClose, Lit [CHR 0x60]] @ [Plus ws]"
    by (simp add: column_pattern_def)
  from assms have "rx_match False
      ([Lit [CHR 0x60], GOpen, Plus not_backtick, GClose, Lit [CHR 0x60]] @ [Plus ws])
      line [] None = Some (rest, gs)"
    by (simp only: re_match_def pat)
  from rx_match_tail [OF this] obtain p s' caps' opn' where line: "line = p @ s'"
    and m: "rx_match False [Plus ws] s' caps' opn' = Some (rest, gs)" by blast
  have ws: "in_cls False ws = is_space" by (auto simp: ws_def)
  from m obtain y ys where s': "s' = y # ys" and y: "is_space y"
    and g: "greedy is_space (\<lambda>s'. Some (s', caps')) ys = Some (rest, gs)"
    by (cases s') (auto simp: ws split: if_splits)
  from greedy_Some [OF g] obtain pre where ys: "ys = pre @ rest" and pre: "list_all is_space pre"
    by auto
  show ?thesis
  proof (cases pre rule: rev_cases)
    case Nil
    with line s' ys y show ?thesis by (intro exI [of _ p] exI [of _ y]) simp
  next
    case (snoc qs q)
    with line s' ys pre show ?thesis by (intro exI [of _ "p @ y # qs"] exI [of _ q]) simp
  qed
qed

lemma split_ws1_not_Nil:
  assumes "\<exists>c \<in> set rest. \<not> is_space c"
  shows "split_ws1 rest \<noteq> []"
proof -
  from assms have ne: "dropWhile is_space rest \<noteq> []" by (simp add: dropWhile_eq_Nil_conv)
  have aux: "(if b then [x] else [x, y]) \<noteq> []" for b and x y :: string by simp
  show ?thesis unfolding split_ws1_def Let_def by (simp only: ne if_False aux not_False_eq_True)
qed



lemma type_and_attributes_total:
  assumes "\<exists>c \<in> set rest. \<not> is_space c"
  shows "\<exists>r. type_and_attributes rest = Inr r"
proof -
  define fb where "fb = (case split_ws1 rest of
           [] \<Rightarrow> Inl IndexError
         | [p0] \<Rightarrow> Inr (p0, [])
         | p0 # p1 # _ \<Rightarrow> Inr (p0, p1))"
  have fb: "\<exists>r. fb = Inr r"
    using split_ws1_not_Nil [OF assms] unfolding fb_def
    by (auto split: list.splits)
  have "type_and_attributes rest = fb \<or> (\<exists>r. type_and_attributes rest = Inr r)"
    unfolding type_and_attributes_def Let_def fb_def [symmetric]
    by (auto split: option.splits prod.splits list.splits)
  with fb show ?thesis by auto
qed

lemma parse_column_total:
  assumes "\<exists>c \<in> set rest. \<not> is_space c"
  shows "\<exists>col. parse_column n rest = Inr col"
  using type_and_attributes_total [OF assms] by (auto simp: parse_column_def)

lemma parse_key_refs:
  assumes "parse_key line = Some c"
  shows "refs_iff_fk c"
  using assms unfolding parse_key_def
  by (auto simp: refs_iff_fk_def split: option.splits prod.splits list.splits)


lemma add_key_refs:
  assumes "list_all refs_iff_fk (snd st)"
  shows "list_all refs_iff_fk (snd (add_key line st))"
proof (cases "parse_key line")
  case None
  with assms show ?thesis by (simp add: add_key_def)
next
  case (Some c)
  with assms parse_key_refs [OF Some] show ?thesis by (simp add: add_key_def)
qed

lemma parse_line_total:
  "\<exists>st'. parse_line l st = Inr st' \<and>
         (list_all refs_iff_fk (snd st) \<longrightarrow> list_all refs_iff_fk (snd st'))"
proof -
  have key: "\<exists>st'. Inr (add_key (strip l) st) = (Inr st' :: py_error + _) \<and>
         (list_all refs_iff_fk (snd st) \<longrightarrow> list_all refs_iff_fk (snd st'))"
    using add_key_refs by blast
  show ?thesis
  proof (cases "startswith_any (strip l) clause_keywords")
    case True
    with key show ?thesis by (simp add: parse_line_def Let_def)
  next
    case kw: False
    show ?thesis
    proof (cases "re_match False column_pattern (strip l)")
      case None
      with kw key show ?thesis by (simp add: parse_line_def Let_def)
    next
      case (Some m)
      obtain rest gs where m: "m = (rest, gs)" by (cases m)
      show ?thesis
      proof (cases "\<exists>n. gs = [n]")
        case False
        with kw key Some m show ?thesis
          by (cases gs; cases "tl gs") (simp_all add: parse_line_def Let_def)
      next
        case True
        then obtain n where gs: "gs = [n]" ..
        from column_match_rest [of "strip l" rest gs] Some m
        obtain a x where "strip l = a @ [x] @ rest" "is_space x" by auto
        from strip_no_trailing_space [OF this] parse_column_total [of rest n]
        obtain col where "parse_column n rest = Inr col" by auto
        with kw Some m gs show ?thesis by (simp add: parse_line_def Let_def)
      qed
    qed
  qed
qed

lemma parse_lines_total:
  "\<exists>st'. parse_lines ls st = Inr st' \<and>
         (list_all refs_iff_fk (snd st) \<longrightarrow> list_all refs_iff_fk (snd st'))"
proof (induction ls arbitrary: st)
  case Nil
  then show ?case by simp
next
  case (Cons l ls)
  from parse_line_total [of l st] obtain st1 where 1: "parse_line l st = Inr st1"
    "list_all refs_iff_fk (snd st) \<longrightarrow> list_all refs_iff_fk (snd st1)" by auto
  from Cons.IH [of st1] obtain st2 where 2: "parse_lines ls st1 = Inr st2"
    "list_all refs_iff_fk (snd st1) \<longrightarrow> list_all refs_iff_fk (snd st2)" by auto
  from 1 2 show ?case by simp
qed

lemma parse_table_total:
  "\<exists>t. parse_table n body opts = Inr t \<and> list_all refs_iff_fk (constraints t)"
proof -
  from segment_total [of body] obtain ls where ls: "segment body = Inr ls" ..
  from parse_lines_total [of ls "([], [])"] obtain cols cons
    where st: "parse_lines ls ([], []) = Inr (cols, cons)" "list_all refs_iff_fk cons"
    by auto
  from ls st show ?thesis by (simp add: parse_table_def)
qed

lemma set_update_subset: "set (AList.update k v al) \<subseteq> insert (k, v) (set al)"
  by (induction al) auto

lemma tables_ok_update:
  assumes "tables_ok S" and "list_all refs_iff_fk (constraints t)"
  shows "tables_ok (AList.update n t S)"
  using assms set_update_subset [of n t S]
  by (auto simp: tables_ok_def list_all_iff)

lemma parse_matches_total:
  "\<exists>S. parse_matches ms T = Inr S \<and> (tables_ok T \<longrightarrow> tables_ok S)"
proof (induction ms arbitrary: T)
  case Nil
  then show ?case by simp
next
  case (Cons m ms)
  show ?case
  proof (cases "\<exists>g1 g2 g3. m = [g1, g2, g3]")
    case False
    then have "parse_matches (m # ms) T = parse_matches ms T"
      by (auto split: list.splits)
    with Cons.IH [of T] show ?thesis by simp
  next
    case True
    then obtain g1 g2 g3 where m: "m = [g1, g2, g3]" by blast
    from parse_table_total [of g1 g2 g3] obtain t where t: "parse_table g1 g2 g3 = Inr t"
      "list_all refs_iff_fk (constraints t)" by auto
    from Cons.IH [of "AList.update g1 t T"] obtain S where
      S: "parse_matches ms (AList.update g1 t T) = Inr S"
      "tables_ok (AList.update g1 t T) \<longrightarrow> tables_ok S" by auto
    from m t S tables_ok_update [of T t g1] show ?thesis by simp
  qed
qed

lemma parse_content_total: "\<exists>S. parse_content content = Inr S \<and> tables_ok S"
  using parse_matches_total [of "re_finditer create_table_pattern content" "[]"]
  by (simp add: parse_content_def tables_ok_def)

lemma parse_dump_orders_fk_1:
  "parse_content (dump_orders ''fk_1'') = Inr [(''orders'', orders_with [pk_id, fk_1])]"
  by code_simp

lemma parse_dump_orders_fk_2:
  "parse_content (dump_orders ''fk_2'') = Inr [(''orders'', orders_with [pk_id, fk_2])]"
  by code_simp

text \<open>
  C9. Parsing any dump text returns a schema, and in every Constraint of every Table of it
  the referenced table is present exactly when the kind is FOREIGN KEY, and so are the
  referenced columns.
\<close>

theorem references_iff_foreign_key:
  "\<exists>S. parse_content content = Inr S \<and>
       (\<forall>(n, t) \<in> set S. \<forall>c \<in> set (constraints t).
          (referenced_table c \<noteq> None \<longleftrightarrow> constraint_type c = ''FOREIGN KEY'') \<and>
          (referenced_columns c \<noteq> None \<longleftrightarrow> constraint_type c = ''FOREIGN KEY''))"
proof -
  from parse_content_total [of content] obtain S
    where S: "parse_content content = Inr S" "tables_ok S" by auto
  from S(2) have "\<forall>(n, t) \<in> set S. \<forall>c \<in> set (constraints t).
          (referenced_table c \<noteq> None \<longleftrightarrow> constraint_type c = ''FOREIGN KEY'') \<and>
          (referenced_columns c \<noteq> None \<longleftrightarrow> constraint_type c = ''FOREIGN KEY'')"
    by (auto simp: tables_ok_def list_all_iff refs_iff_fk_def)
  with S(1) show ?thesis by blast
qed

theorem references_iff_foreign_key_witness:
  "parse_content (dump_orders ''fk_1'') = Inr [(''orders'', orders_with [pk_id, fk_1])] \<and>
   constraint_type fk_1 = ''FOREIGN KEY'' \<and> referenced_table fk_1 = Some ''users'' \<and>
   referenced_columns fk_1 = Some [''id''] \<and>
   constraint_type pk_id = ''PRIMARY KEY'' \<and> referenced_table pk_id = None \<and>
   referenced_columns pk_id = None"
proof -
  from references_iff_foreign_key [of "dump_orders ''fk_1''"]
  have "\<forall>c \<in> set (constraints (orders_with [pk_id, fk_1])).
          (referenced_table c \<noteq> None \<longleftrightarrow> constraint_type c = ''FOREIGN KEY'') \<and>
          (referenced_columns c \<noteq> None \<longleftrightarrow> constraint_type c = ''FOREIGN KEY'')"
    by (simp add: parse_dump_orders_fk_1)
  then have "(referenced_table pk_id \<noteq> None \<longleftrightarrow> constraint_type pk_id = ''FOREIGN KEY'') \<and>
             (referenced_columns pk_id \<noteq> None \<longleftrightarrow> constraint_type pk_id = ''FOREIGN KEY'')"
    by (simp add: orders_with_def)
  moreover have "constraint_type pk_id = ''PRIMARY KEY''" "constraint_type fk_1 = ''FOREIGN KEY''"
    "referenced_table fk_1 = Some ''users''" "referenced_columns fk_1 = Some [''id'']"
    by (simp_all add: pk_id_def fk_1_def)
  ultimately show ?thesis using parse_dump_orders_fk_1 by simp
qed

section \<open>A dump against itself\<close>

text \<open>
  C5. When both paths hold the same dump text, whatever it is, the two parses succeed and
  the report of the differ is exactly the fixed sentence that no structural difference was
  found.
\<close>

theorem same_dump_no_difference:
  assumes "fs file1 = Some (File content)" and "fs file2 = Some (File content)"
  shows "SQLDiff fs file1 file2 = Inr msg_no_difference"
proof -
  from parse_content_total [of content] obtain S where "parse_content content = Inr S" by auto
  with assms show ?thesis by (simp add: SQLDiff_def MySQLDumpParser_def compare_self)
qed

theorem same_dump_no_difference_witness:
  "SQLDiff (Map.empty(''a.sql'' \<mapsto> File (dump_orders ''fk_1''), ''b.sql'' \<mapsto> File (dump_orders ''fk_1'')))
     ''a.sql'' ''b.sql'' = Inr msg_no_difference"
  by (rule same_dump_no_difference) simp_all

text \<open>
  The example of the specification, from the text of the dumps to the report: the same
  foreign key named fk_1 in the first dump and fk_2 in the second gives no difference.
\<close>

lemma renamed_foreign_key_no_difference:
  "SQLDiff (Map.empty(''a.sql'' \<mapsto> File (dump_orders ''fk_1''), ''b.sql'' \<mapsto> File (dump_orders ''fk_2'')))
     ''a.sql'' ''b.sql'' = Inr msg_no_difference"
proof -
  have "compare [(''orders'', orders_with [pk_id, fk_1])] [(''orders'', orders_with [pk_id, fk_2])]
        = Inr msg_no_difference"
    by code_simp
  then show ?thesis
    by (simp add: SQLDiff_def MySQLDumpParser_def parse_dump_orders_fk_1 parse_dump_orders_fk_2)
qed

end
